theory Spec2Isabelle
  imports Main "HOL-Library.Word"
begin

section \<open>sqlhelper: struct extraction and INSERT statement building (q.go)\<close>

text \<open>
  A shallow embedding of \<^verbatim>\<open>q.go\<close>. Every panic of the source is a value of
  \<open>panic\<close>; a function that can panic returns \<open>panic + 'a\<close>. Go's \<^verbatim>\<open>error\<close>
  results are \<open>err option\<close>, \<open>None\<close> being \<^verbatim>\<open>nil\<close>. Strings are byte lists.
\<close>

subsection \<open>Panics and errors\<close>

datatype panic =
    NotAStruct
  | NeedAtLeastOneKey
  | InvalidType
  | NilPointerDereference
  | InterfaceOfUnexportedField

datatype err = Err string

subsection \<open>The library functions q.go calls on strings\<close>

text \<open>
  \<^verbatim>\<open>unicode.IsLower(rune(b))\<close> for a byte \<open>b\<close>: the rune is below 256, where Go decides
  by its Latin-1 property table. The lower-case letters of that table are \<open>a\<close> to \<open>z\<close>,
  the micro sign, and \<open>0xDF\<close> to \<open>0xFF\<close> without the division sign \<open>0xF7\<close>.
\<close>

definition unicode_IsLower :: "char \<Rightarrow> bool" where
  "unicode_IsLower c =
     (let r = (of_char c :: nat)
      in (97 \<le> r \<and> r \<le> 122) \<or> r = 181 \<or> (223 \<le> r \<and> r \<le> 246) \<or> (248 \<le> r \<and> r \<le> 255))"

text \<open>\<^verbatim>\<open>strings.IndexByte\<close>: the index of the first \<open>c\<close> in \<open>s\<close>, or \<open>-1\<close>.\<close>

fun IndexByte :: "string \<Rightarrow> char \<Rightarrow> int" where
  "IndexByte [] c = - 1"
| "IndexByte (x # xs) c =
     (if x = c then 0 else (let m = IndexByte xs c in if m < 0 then - 1 else m + 1))"

lemma IndexByte_range: "- 1 \<le> IndexByte s c \<and> IndexByte s c < int (length s)"
  by (induction s) (auto simp: Let_def)

text \<open>
  \<^verbatim>\<open>strings.Split(s, sep)\<close> for a separator of one byte (q.go only splits at \<^verbatim>\<open>","\<close>):
  cut at each separator, the rest of the string is the last piece.
\<close>

function Split :: "string \<Rightarrow> char \<Rightarrow> string list" where
  "Split s sep =
     (let m = IndexByte s sep
      in if m < 0 then [s] else take (nat m) s # Split (drop (nat m + 1) s) sep)"
  by pat_completeness auto
termination
proof (relation "measure (\<lambda>(s, sep). length s)")
  show "wf (measure (\<lambda>(s, sep). length s))"
    by simp
next
  fix s :: string and sep :: char and x :: int
  assume x: "x = IndexByte s sep" and nonneg: "\<not> x < 0"
  have "x < int (length s)"
    using IndexByte_range [of s sep] x by simp
  then have "0 < length s"
    using nonneg by auto
  then show "((drop (nat x + 1) s, sep), (s, sep)) \<in> measure (\<lambda>(s, sep). length s)"
    by simp
qed

declare Split.simps [simp del]

text \<open>\<^verbatim>\<open>strconv.Itoa\<close>: the decimal digits of an integer, with a minus sign below zero.\<close>

definition digit :: "nat \<Rightarrow> char" where
  "digit d = ''0123456789'' ! d"

function decimal :: "nat \<Rightarrow> string" where
  "decimal n = (if n < 10 then [digit n] else decimal (n div 10) @ [digit (n mod 10)])"
  by pat_completeness auto
termination
  by (relation "measure (\<lambda>n. n)") auto

declare decimal.simps [simp del]

definition Itoa :: "int \<Rightarrow> string" where
  "Itoa i = (if i < 0 then CHR ''-'' # decimal (nat (- i)) else decimal (nat i))"

subsection \<open>Struct values as reflection sees them\<close>

text \<open>
  \<^verbatim>\<open>reflect.StructField\<close>: the declared name, the package path (empty exactly for an
  exported field) and the tag. The tag is held as the key/value pairs that
  \<^verbatim>\<open>StructTag.Get\<close> finds in it, in order; \<open>Get\<close> answers the first value of a key and
  the empty string for a key that is absent.
\<close>

record StructField =
  Name :: string
  PkgPath :: string
  Tag :: "(string \<times> string) list"

definition Get :: "(string \<times> string) list \<Rightarrow> string \<Rightarrow> string" where
  "Get tag key = (case map_of tag key of None \<Rightarrow> [] | Some v \<Rightarrow> v)"

text \<open>
  Go values, as far as \<^verbatim>\<open>StructToKVs\<close> looks into them: a struct is the list of its
  fields in declaration order, each with its current value; a pointer is \<^verbatim>\<open>nil\<close> or
  holds its pointee. \<open>GNil\<close> is the \<^verbatim>\<open>nil\<close> interface, and reflection's invalid value.
\<close>

datatype gval =
    GNil
  | GBool bool
  | GInt int
  | GString string
  | GPointer "gval option"
  | GStruct "(StructField \<times> gval) list"

text \<open>\<^verbatim>\<open>reflect.Indirect\<close>: one pointer is followed, a \<^verbatim>\<open>nil\<close> pointer gives the invalid value.\<close>

fun Indirect :: "gval \<Rightarrow> gval" where
  "Indirect (GPointer None) = GNil"
| "Indirect (GPointer (Some v)) = v"
| "Indirect v = v"

text \<open>
  \<^verbatim>\<open>rv.Field(i).Interface()\<close>: reflection hands out the value of an exported field and
  panics on a field that is not exported (one with a package path).
\<close>

definition Interface :: "StructField \<times> gval \<Rightarrow> panic + gval" where
  "Interface fv = (if PkgPath (fst fv) = [] then Inr (snd fv) else Inl InterfaceOfUnexportedField)"

subsection \<open>getName and StructToKVs\<close>

text \<open>
  \<^verbatim>\<open>t.Name[0]\<close> is read only when the name is not empty. For each tag the source nests
  two tests, \<^verbatim>\<open>n != ""\<close> and \<^verbatim>\<open>len(p) > 0\<close>, and goes on to the same next step when
  either fails; they are one conjunction here.
\<close>

definition getName :: "StructField \<Rightarrow> string" where
  "getName t =
     (if Name t = [] then []
      else if unicode_IsLower (Name t ! 0) then []
      else
        (let n = Get (Tag t) ''sql'';
             p = Split n (CHR '','')
         in if n \<noteq> [] \<and> length p > 0 then p ! 0
            else
              (let n = Get (Tag t) ''json'';
                   p = Split n (CHR '','')
               in if n \<noteq> [] \<and> length p > 0 then p ! 0
                  else Name t)))"

text \<open>
  The loop of \<^verbatim>\<open>StructToKVs\<close> over the field index \<open>i\<close>, with the two slices it
  appends to. The bound \<^verbatim>\<open>cap(keys)\<close> is the number of fields.
\<close>

function StructToKVs_loop ::
  "(StructField \<times> gval) list \<Rightarrow> nat \<Rightarrow> string list \<Rightarrow> gval list \<Rightarrow> panic + (string list \<times> gval list)"
where
  "StructToKVs_loop fs i keys values =
     (if i < length fs then
        (let name = getName (fst (fs ! i))
         in if name = [] then StructToKVs_loop fs (i + 1) keys values
            else
              (case Interface (fs ! i) of
                 Inl e \<Rightarrow> Inl e
               | Inr x \<Rightarrow> StructToKVs_loop fs (i + 1) (keys @ [name]) (values @ [x])))
      else Inr (keys, values))"
  by pat_completeness auto
termination
  by (relation "measure (\<lambda>(fs, i, keys, values). length fs - i)") auto

declare StructToKVs_loop.simps [simp del]

definition StructToKVs :: "gval \<Rightarrow> panic + (string list \<times> gval list)" where
  "StructToKVs v =
     (case Indirect v of
        GStruct fs \<Rightarrow> StructToKVs_loop fs 0 [] []
      | _ \<Rightarrow> Inl NotAStruct)"

subsection \<open>Query builders\<close>

text \<open>
  \<^verbatim>\<open>type Syntax uint8\<close> with \<^verbatim>\<open>PSQL = iota\<close> and \<^verbatim>\<open>MySQL\<close> after it. A \<open>Query\<close> is its
  \<^verbatim>\<open>strings.Builder\<close>, held as the bytes written so far, and its \<open>Syntax\<close>. The builder's
  capacity is not modelled, so the two calls of \<^verbatim>\<open>Grow\<close> are left out: \<^verbatim>\<open>Grow\<close> reserves
  room and leaves the text as it is, and neither \<^verbatim>\<open>512\<close> nor a capacity is negative.
\<close>

type_synonym Syntax = "8 word"

definition PSQL :: Syntax where
  "PSQL = 0"

definition MySQL :: Syntax where
  "MySQL = 1"

record Query =
  sb :: string
  Syntax :: Syntax

definition WriteString :: "Query \<Rightarrow> string \<Rightarrow> Query" where
  "WriteString q s = q\<lparr>sb := sb q @ s\<rparr>"

definition WriteByte :: "Query \<Rightarrow> char \<Rightarrow> Query" where
  "WriteByte q c = q\<lparr>sb := sb q @ [c]\<rparr>"

text \<open>
  Builders are used through pointers (\<^verbatim>\<open>*Query\<close>), and \<^verbatim>\<open>InsertInto\<close> writes in place.
  The heap is the list of the builders allocated so far; a pointer is \<^verbatim>\<open>nil\<close> or the
  index of a builder. Reading through \<^verbatim>\<open>nil\<close> panics.
\<close>

datatype QueryPtr = NilQuery | QueryAt nat

type_synonym heap = "Query list"

definition deref :: "heap \<Rightarrow> QueryPtr \<Rightarrow> panic + Query" where
  "deref h p =
     (case p of
        NilQuery \<Rightarrow> Inl NilPointerDereference
      | QueryAt a \<Rightarrow> if a < length h then Inr (h ! a) else Inl NilPointerDereference)"

definition store :: "heap \<Rightarrow> QueryPtr \<Rightarrow> Query \<Rightarrow> heap" where
  "store h p qv = (case p of NilQuery \<Rightarrow> h | QueryAt a \<Rightarrow> h[a := qv])"

definition NewQuery :: "heap \<Rightarrow> Syntax \<Rightarrow> heap \<times> QueryPtr" where
  "NewQuery h syn = (h @ [\<lparr>sb = [], Syntax = syn\<rparr>], QueryAt (length h))"

definition String :: "heap \<Rightarrow> QueryPtr \<Rightarrow> panic + string" where
  "String h q = (case deref h q of Inl e \<Rightarrow> Inl e | Inr qv \<Rightarrow> Inr (sb qv))"

text \<open>The first loop of \<^verbatim>\<open>InsertInto\<close>: the keys, a comma before every key but the first.\<close>

function InsertInto_keys :: "string list \<Rightarrow> nat \<Rightarrow> Query \<Rightarrow> Query" where
  "InsertInto_keys keys i q =
     (if i < length keys then
        (let q1 = (if i > 0 then WriteByte q (CHR '','') else q);
             q2 = WriteString q1 (keys ! i)
         in InsertInto_keys keys (i + 1) q2)
      else q)"
  by pat_completeness auto
termination
  by (relation "measure (\<lambda>(keys, i, q). length keys - i)") auto

declare InsertInto_keys.simps [simp del]

text \<open>The second loop: one placeholder for each key, chosen by the builder's \<open>Syntax\<close>.\<close>

function InsertInto_placeholders :: "nat \<Rightarrow> nat \<Rightarrow> Query \<Rightarrow> Query" where
  "InsertInto_placeholders n i q =
     (if i < n then
        (let q1 = (if i > 0 then WriteByte q (CHR '','') else q);
             q2 = (if Syntax q1 = 0 then WriteString q1 (''$'' @ Itoa (int i + 1))
                   else WriteByte q1 (CHR ''?''))
         in InsertInto_placeholders n (i + 1) q2)
      else q)"
  by pat_completeness auto
termination
  by (relation "measure (\<lambda>(n, i, q). n - i)") auto

declare InsertInto_placeholders.simps [simp del]

text \<open>What \<^verbatim>\<open>InsertInto\<close> writes into the builder behind its receiver, after the check.\<close>

definition InsertInto_writes :: "Query \<Rightarrow> string \<Rightarrow> string list \<Rightarrow> Query" where
  "InsertInto_writes q0 tbl keys =
     (let q2 = WriteString q0 ''INSERT INTO '';
          q3 = WriteString q2 tbl;
          q4 = WriteString q3 '' ('';
          q5 = InsertInto_keys keys 0 q4;
          q6 = WriteString q5 '') VALUES ('';
          q7 = InsertInto_placeholders (length keys) 0 q6;
          q8 = WriteByte q7 (CHR '')'')
      in if Syntax q8 = 0 then WriteString q8 '' RETURNING id'' else q8)"

text \<open>\<^verbatim>\<open>InsertInto\<close> returns its receiver; the heap it returns holds the text written.\<close>

definition InsertInto :: "heap \<Rightarrow> QueryPtr \<Rightarrow> string \<Rightarrow> string list \<Rightarrow> panic + (heap \<times> QueryPtr)" where
  "InsertInto h q tbl keys =
     (if length keys = 0 then Inl NeedAtLeastOneKey
      else
        (case deref h q of
           Inl e \<Rightarrow> Inl e
         | Inr qv \<Rightarrow> Inr (store h q (InsertInto_writes qv tbl keys), q)))"

definition Copy :: "heap \<Rightarrow> QueryPtr \<Rightarrow> panic + (heap \<times> QueryPtr)" where
  "Copy h q =
     (case deref h q of
        Inl e \<Rightarrow> Inl e
      | Inr qv \<Rightarrow>
          (let (h1, nq) = NewQuery h (Syntax qv)
           in case String h1 q of
                Inl e \<Rightarrow> Inl e
              | Inr s \<Rightarrow>
                  (case deref h1 nq of
                     Inl e \<Rightarrow> Inl e
                   | Inr nqv \<Rightarrow> Inr (store h1 nq (WriteString nqv s), nq))))"

subsection \<open>ExecInsert\<close>

text \<open>
  The execution targets are handles of \<^verbatim>\<open>database/sql\<close>; each is given by the one method
  \<^verbatim>\<open>ExecInsert\<close> calls on it. For \<^verbatim>\<open>*sql.DB\<close> and \<^verbatim>\<open>*sql.Tx\<close> that is
  \<^verbatim>\<open>QueryRowContext\<close>, whose \<open>Row\<close> says what \<^verbatim>\<open>Scan\<close> into one string destination does:
  the string it stores, if it stores one, and its error. For \<^verbatim>\<open>*sql.Stmt\<close> it is
  \<^verbatim>\<open>ExecContext\<close>, of which only the error is kept. \<open>OtherTarget\<close> is a value of any
  other type.
\<close>

datatype Context = Context nat

type_synonym Row = "string option \<times> err option"

datatype target =
    DB "Context \<Rightarrow> string \<Rightarrow> gval list \<Rightarrow> Row"
  | Tx "Context \<Rightarrow> string \<Rightarrow> gval list \<Rightarrow> Row"
  | Stmt "Context \<Rightarrow> gval list \<Rightarrow> err option"
  | OtherTarget gval

definition Scan :: "Row \<Rightarrow> string \<Rightarrow> string \<times> err option" where
  "Scan row dest = (case fst row of None \<Rightarrow> (dest, snd row) | Some s \<Rightarrow> (s, snd row))"

text \<open>The result is the pair \<^verbatim>\<open>(id, err)\<close>; \<^verbatim>\<open>id\<close> starts as the empty string.\<close>

definition ExecInsert ::
  "heap \<Rightarrow> QueryPtr \<Rightarrow> target \<Rightarrow> Context \<Rightarrow> gval list \<Rightarrow> panic + (string \<times> err option)"
where
  "ExecInsert h q ins ctx values =
     (case ins of
        DB t \<Rightarrow> (case String h q of Inl e \<Rightarrow> Inl e | Inr s \<Rightarrow> Inr (Scan (t ctx s values) []))
      | Tx t \<Rightarrow> (case String h q of Inl e \<Rightarrow> Inl e | Inr s \<Rightarrow> Inr (Scan (t ctx s values) []))
      | Stmt t \<Rightarrow> Inr ([], t ctx values)
      | OtherTarget _ \<Rightarrow> Inl InvalidType)"

subsection \<open>WrapCopyIn\<close>

text \<open>
  \<^verbatim>\<open>WrapCopyIn\<close> only sequences calls on its collaborators. A \<open>world\<close> says how each of
  them answers: \<open>None\<close> is success, and a call that fails hands back no handle. The
  callback is the caller's code: it returns \<^verbatim>\<open>nil\<close> or an error, or it panics. The
  function is modelled by the calls it makes, in order, and by how it ends.
\<close>

datatype fn_outcome = FnReturns "err option" | FnPanics

record world =
  db_Begin :: "err option"
  tx_PrepareContext :: "err option"
  fn :: fn_outcome
  st_Exec :: "err option"
  st_Close :: "err option"
  tx_Rollback :: "err option"
  tx_Commit :: "err option"

datatype call =
    CallBegin
  | CallPrepareContext Context string "string list"
  | CallFn
  | CallExec
  | CallClose
  | CallRollback
  | CallCommit

datatype outcome = Returns "err option" | Panics

text \<open>
  The deferred function: it sees whether \<^verbatim>\<open>st\<close> was set and the current \<^verbatim>\<open>err\<close>,
  and leaves the \<^verbatim>\<open>err\<close> that is returned. The results of \<^verbatim>\<open>Close\<close> and \<^verbatim>\<open>Rollback\<close>
  are dropped.
\<close>

definition deferred :: "world \<Rightarrow> bool \<Rightarrow> err option \<Rightarrow> call list \<times> err option" where
  "deferred w st_set e =
     ((if st_set then [CallClose] else []) @ (if e \<noteq> None then [CallRollback] else [CallCommit]),
      (if e \<noteq> None then e else tx_Commit w))"

text \<open>
  Go runs the deferred function when the function returns and also when a panic
  unwinds through it; \<^verbatim>\<open>err\<close> is then still what the last assignment left.
\<close>

definition WrapCopyIn :: "world \<Rightarrow> Context \<Rightarrow> string \<Rightarrow> string list \<Rightarrow> call list \<times> outcome" where
  "WrapCopyIn w ctx table columns =
     (case db_Begin w of
        Some e \<Rightarrow> ([CallBegin], Returns (Some e))
      | None \<Rightarrow>
          (case tx_PrepareContext w of
             Some e \<Rightarrow>
               (let (cs, e') = deferred w False (Some e)
                in ([CallBegin, CallPrepareContext ctx table columns] @ cs, Returns e'))
           | None \<Rightarrow>
               (case fn w of
                  FnPanics \<Rightarrow>
                    (let (cs, e') = deferred w True None
                     in ([CallBegin, CallPrepareContext ctx table columns, CallFn] @ cs, Panics))
                | FnReturns (Some e) \<Rightarrow>
                    (let (cs, e') = deferred w True (Some e)
                     in ([CallBegin, CallPrepareContext ctx table columns, CallFn] @ cs, Returns e'))
                | FnReturns None \<Rightarrow>
                    (let (cs, e') = deferred w True (st_Exec w)
                     in ([CallBegin, CallPrepareContext ctx table columns, CallFn, CallExec] @ cs,
                         Returns e')))))"

subsection \<open>Definitions the statements are written in\<close>

text \<open>The part of a tag value before its first comma; all of it when it has no comma.\<close>

definition before_comma :: "string \<Rightarrow> string" where
  "before_comma s = takeWhile (\<lambda>c. c \<noteq> CHR '','') s"

text \<open>
  The precedence chain in words: a non-empty \<^verbatim>\<open>sql\<close> tag first, then a non-empty
  \<^verbatim>\<open>json\<close> tag, each cut at its first comma, then the declared name.
\<close>

definition resolved_name :: "StructField \<Rightarrow> string" where
  "resolved_name t =
     (if Get (Tag t) ''sql'' \<noteq> [] then before_comma (Get (Tag t) ''sql'')
      else if Get (Tag t) ''json'' \<noteq> [] then before_comma (Get (Tag t) ''json'')
      else Name t)"

text \<open>The fields \<^verbatim>\<open>StructToKVs\<close> keeps, in declaration order.\<close>

definition extracted :: "(StructField \<times> gval) list \<Rightarrow> (StructField \<times> gval) list" where
  "extracted fs = filter (\<lambda>fv. getName (fst fv) \<noteq> []) fs"

text \<open>The statement text in words: items separated by commas, and the placeholders.\<close>

fun comma_separated :: "string list \<Rightarrow> string" where
  "comma_separated [] = []"
| "comma_separated [x] = x"
| "comma_separated (x # y # ys) = x @ '','' @ comma_separated (y # ys)"

definition placeholders :: "Syntax \<Rightarrow> nat \<Rightarrow> string list" where
  "placeholders syn n =
     (if syn = PSQL then map (\<lambda>k. ''$'' @ Itoa (int k)) [1..<Suc n] else replicate n ''?'')"

definition insert_statement :: "Syntax \<Rightarrow> string \<Rightarrow> string list \<Rightarrow> string" where
  "insert_statement syn tbl cols =
     ''INSERT INTO '' @ tbl @ '' ('' @ comma_separated cols @ '') VALUES ('' @
     comma_separated (placeholders syn (length cols)) @ '')'' @
     (if syn = PSQL then '' RETURNING id'' else [])"

text \<open>What the second loop of \<^verbatim>\<open>InsertInto\<close> writes for the index \<open>i\<close>.\<close>

definition placeholder :: "Syntax \<Rightarrow> nat \<Rightarrow> string" where
  "placeholder syn i = (if syn = 0 then ''$'' @ Itoa (int i + 1) else ''?'')"

text \<open>
  For \<^verbatim>\<open>WrapCopyIn\<close>: all three steps after \<^verbatim>\<open>Begin\<close> returned without an error, and
  the error of the first step that returned one.
\<close>

definition steps_succeed :: "world \<Rightarrow> bool" where
  "steps_succeed w = (tx_PrepareContext w = None \<and> fn w = FnReturns None \<and> st_Exec w = None)"

definition first_error :: "world \<Rightarrow> err option" where
  "first_error w =
     (case tx_PrepareContext w of
        Some e \<Rightarrow> Some e
      | None \<Rightarrow> (case fn w of FnReturns (Some e) \<Rightarrow> Some e | _ \<Rightarrow> st_Exec w))"

section \<open>Field extraction\<close>

subsection \<open>Splitting at the first comma\<close>

lemma IndexByte_takeWhile:
  "IndexByte s c = (if c \<in> set s then int (length (takeWhile (\<lambda>x. x \<noteq> c) s)) else - 1)"
  by (induction s) (auto simp: Let_def)

lemma Split_first: "\<exists>rest. Split s c = takeWhile (\<lambda>x. x \<noteq> c) s # rest"
proof (cases "c \<in> set s")
  case True
  then have m: "IndexByte s c = int (length (takeWhile (\<lambda>x. x \<noteq> c) s))"
    by (simp add: IndexByte_takeWhile)
  have "take (length (takeWhile (\<lambda>x. x \<noteq> c) s)) s = takeWhile (\<lambda>x. x \<noteq> c) s"
    by (metis takeWhile_eq_take)
  then show ?thesis
    using m by (subst Split.simps) (simp add: Let_def)
next
  case False
  then have m: "IndexByte s c = - 1"
    by (simp add: IndexByte_takeWhile)
  have tw: "takeWhile (\<lambda>x. x \<noteq> c) s = s"
    using False by (auto simp: takeWhile_eq_all_conv)
  have "Split s c = [takeWhile (\<lambda>x. x \<noteq> c) s]"
    by (subst Split.simps) (simp add: Let_def m tw)
  then show ?thesis
    by simp
qed

lemma Split_nonempty: "Split s c \<noteq> []"
  using Split_first [of s c] by auto

lemma Split_nth0: "Split s c ! 0 = takeWhile (\<lambda>x. x \<noteq> c) s"
  using Split_first [of s c] by auto

subsection \<open>getName\<close>

lemma getName_resolved:
  assumes "Name t \<noteq> []" and "\<not> unicode_IsLower (Name t ! 0)"
  shows "getName t = resolved_name t"
  using assms
  by (simp add: getName_def resolved_name_def before_comma_def Let_def Split_nth0 Split_nonempty)

lemma getName_lower: "Name t = [] \<or> unicode_IsLower (Name t ! 0) \<Longrightarrow> getName t = []"
  by (auto simp: getName_def)

text \<open>
  Claim C1. A field that passes the check on its declared name, and so every field that
  is extracted, gets its column name from the precedence chain: the \<^verbatim>\<open>sql\<close> tag up to
  its first comma if that tag is not empty, else the \<^verbatim>\<open>json\<close> tag up to its first comma
  if that tag is not empty, else the declared name.
\<close>

theorem getName_precedence:
  assumes "Name t \<noteq> []" and "\<not> unicode_IsLower (Name t ! 0)"
  shows "getName t = resolved_name t"
  using assms by (rule getName_resolved)

theorem getName_precedence_witness:
  "getName \<lparr>Name = ''Id'', PkgPath = [], Tag = [(''sql'', ''id,omitempty''), (''json'', ''ID'')]\<rparr> = ''id'' \<and>
   getName \<lparr>Name = ''UserName'', PkgPath = [], Tag = [(''json'', ''user_name,omitempty'')]\<rparr> = ''user_name'' \<and>
   getName \<lparr>Name = ''Age'', PkgPath = [], Tag = []\<rparr> = ''Age''"
  using
    getName_precedence [of "\<lparr>Name = ''Id'', PkgPath = [], Tag = [(''sql'', ''id,omitempty''), (''json'', ''ID'')]\<rparr>"]
    getName_precedence [of "\<lparr>Name = ''UserName'', PkgPath = [], Tag = [(''json'', ''user_name,omitempty'')]\<rparr>"]
    getName_precedence [of "\<lparr>Name = ''Age'', PkgPath = [], Tag = []\<rparr>"]
  by (simp add: unicode_IsLower_def resolved_name_def before_comma_def Get_def)

subsection \<open>StructToKVs\<close>

text \<open>
  The loop from index \<open>i\<close> on: it panics when a kept field is not exported, and else
  appends the names and the values of the kept fields, in order.
\<close>

lemma StructToKVs_loop_eq:
  "i \<le> length fs \<Longrightarrow>
   StructToKVs_loop fs i keys values =
     (if list_all (\<lambda>fv. PkgPath (fst fv) = []) (extracted (drop i fs))
      then Inr (keys @ map (getName \<circ> fst) (extracted (drop i fs)),
                values @ map snd (extracted (drop i fs)))
      else Inl InterfaceOfUnexportedField)"
proof (induction fs i keys "values" rule: StructToKVs_loop.induct)
  case (1 fs i keys vs)
  show ?case
  proof (cases "i < length fs")
    case False
    then show ?thesis
      using "1.prems" by (subst StructToKVs_loop.simps) (simp add: extracted_def)
  next
    case True
    then have d: "drop i fs = fs ! i # drop (Suc i) fs"
      by (simp add: Cons_nth_drop_Suc)
    show ?thesis
    proof (cases "getName (fst (fs ! i)) = []")
      case skip: True
      have "StructToKVs_loop fs i keys vs = StructToKVs_loop fs (i + 1) keys vs"
        using True skip by (subst StructToKVs_loop.simps) simp
      also have "\<dots> = (if list_all (\<lambda>fv. PkgPath (fst fv) = []) (extracted (drop (i + 1) fs))
          then Inr (keys @ map (getName \<circ> fst) (extracted (drop (i + 1) fs)),
                    vs @ map snd (extracted (drop (i + 1) fs)))
          else Inl InterfaceOfUnexportedField)"
        using "1.IH"(1) [OF True refl skip] True by simp
      finally show ?thesis
        using skip by (simp add: d extracted_def)
    next
      case keep: False
      show ?thesis
      proof (cases "PkgPath (fst (fs ! i)) = []")
        case unexported: False
        then have "StructToKVs_loop fs i keys vs = Inl InterfaceOfUnexportedField"
          using True keep by (subst StructToKVs_loop.simps) (simp add: Interface_def)
        then show ?thesis
          using keep unexported by (simp add: d extracted_def)
      next
        case exported: True
        then have I: "Interface (fs ! i) = Inr (snd (fs ! i))"
          by (simp add: Interface_def)
        have "StructToKVs_loop fs i keys vs =
            StructToKVs_loop fs (i + 1) (keys @ [getName (fst (fs ! i))]) (vs @ [snd (fs ! i)])"
          using True keep I by (subst StructToKVs_loop.simps) simp
        also have "\<dots> = (if list_all (\<lambda>fv. PkgPath (fst fv) = []) (extracted (drop (i + 1) fs))
          then Inr ((keys @ [getName (fst (fs ! i))]) @ map (getName \<circ> fst) (extracted (drop (i + 1) fs)),
                    (vs @ [snd (fs ! i)]) @ map snd (extracted (drop (i + 1) fs)))
          else Inl InterfaceOfUnexportedField)"
          using "1.IH"(2) [OF True refl keep I] True by simp
        finally show ?thesis
          using keep exported by (simp add: d extracted_def)
      qed
    qed
  qed
qed

lemma StructToKVs_eq:
  "StructToKVs v =
     (case Indirect v of
        GStruct fs \<Rightarrow>
          (if list_all (\<lambda>fv. PkgPath (fst fv) = []) (extracted fs)
           then Inr (map (getName \<circ> fst) (extracted fs), map snd (extracted fs))
           else Inl InterfaceOfUnexportedField)
      | _ \<Rightarrow> Inl NotAStruct)"
  by (simp add: StructToKVs_def StructToKVs_loop_eq split: gval.splits)

text \<open>A struct whose kept fields are all exported is extracted: the call returns.\<close>

lemma StructToKVs_returns:
  assumes "Indirect v = GStruct fs" and "list_all (\<lambda>fv. PkgPath (fst fv) = []) (extracted fs)"
  shows "StructToKVs v = Inr (map (getName \<circ> fst) (extracted fs), map snd (extracted fs))"
  using assms by (simp add: StructToKVs_eq)

text \<open>A field for which \<open>getName\<close> answers the empty string leaves no trace in the result.\<close>

lemma StructToKVs_skip:
  assumes "getName t = []"
  shows "StructToKVs (GStruct (fs1 @ (t, x) # fs2)) = StructToKVs (GStruct (fs1 @ fs2))"
proof -
  have "extracted (fs1 @ (t, x) # fs2) = extracted (fs1 @ fs2)"
    using assms by (simp add: extracted_def)
  then show ?thesis
    by (simp add: StructToKVs_eq)
qed

lemma StructToKVs_skips_lower:
  assumes "Name t = [] \<or> unicode_IsLower (Name t ! 0)"
  shows "StructToKVs (GStruct (fs1 @ (t, x) # fs2)) = StructToKVs (GStruct (fs1 @ fs2))"
  using assms by (intro StructToKVs_skip getName_lower)

text \<open>
  Claim C3. For a struct, or a pointer to one, with the fields \<open>fs\<close>: extraction
  returns when every field it keeps is exported, and whenever it returns, the names
  and the values have the same length and both are read off the same list, the fields
  that are not skipped, in declaration order. So the name and the value at an index
  come from the same field, and a skipped field has no entry in either sequence.
\<close>

theorem StructToKVs_positional:
  assumes "Indirect v = GStruct fs"
  shows "(list_all (\<lambda>fv. PkgPath (fst fv) = []) (extracted fs) \<longrightarrow>
            StructToKVs v = Inr (map (\<lambda>fv. getName (fst fv)) (extracted fs), map snd (extracted fs))) \<and>
         (\<forall>keys values. StructToKVs v = Inr (keys, values) \<longrightarrow>
            length keys = length values \<and>
            keys = map (\<lambda>fv. getName (fst fv)) (extracted fs) \<and>
            values = map snd (extracted fs) \<and>
            (\<forall>i < length keys.
               keys ! i = getName (fst (extracted fs ! i)) \<and> values ! i = snd (extracted fs ! i)))"
proof (intro conjI impI allI)
  assume "list_all (\<lambda>fv. PkgPath (fst fv) = []) (extracted fs)"
  then show "StructToKVs v = Inr (map (\<lambda>fv. getName (fst fv)) (extracted fs), map snd (extracted fs))"
    using assms by (simp add: StructToKVs_eq comp_def)
next
  fix keys "values"
  assume r: "StructToKVs v = Inr (keys, values)"
  have "list_all (\<lambda>fv. PkgPath (fst fv) = []) (extracted fs)"
    using r assms by (simp add: StructToKVs_eq split: if_splits)
  then have k: "keys = map (\<lambda>fv. getName (fst fv)) (extracted fs)"
    and v: "values = map snd (extracted fs)"
    using r assms by (simp_all add: StructToKVs_eq comp_def)
  show "length keys = length values"
    by (simp add: k v)
  show "keys = map (\<lambda>fv. getName (fst fv)) (extracted fs)"
    by (rule k)
  show "values = map snd (extracted fs)"
    by (rule v)
  show "keys ! i = getName (fst (extracted fs ! i))" if "i < length keys" for i
    using that by (simp add: k)
  show "values ! i = snd (extracted fs ! i)" if "i < length keys" for i
    using that by (simp add: k v)
qed


theorem StructToKVs_positional_witness:
  "StructToKVs (GPointer (Some (GStruct
       [(\<lparr>Name = ''Id'', PkgPath = [], Tag = [(''sql'', ''id,omitempty'')]\<rparr>, GInt 7),
        (\<lparr>Name = ''secret'', PkgPath = ''main'', Tag = []\<rparr>, GString ''x''),
        (\<lparr>Name = ''Name'', PkgPath = [], Tag = []\<rparr>, GString ''n'')]))) =
     Inr ([''id'', ''Name''], [GInt 7, GString ''n''])"
proof -
  let ?fs = "[(\<lparr>Name = ''Id'', PkgPath = [], Tag = [(''sql'', ''id,omitempty'')]\<rparr>, GInt 7),
        (\<lparr>Name = ''secret'', PkgPath = ''main'', Tag = []\<rparr>, GString ''x''),
        (\<lparr>Name = ''Name'', PkgPath = [], Tag = []\<rparr>, GString ''n'')]"
  let ?kept = "[(\<lparr>Name = ''Id'', PkgPath = [], Tag = [(''sql'', ''id,omitempty'')]\<rparr>, GInt 7),
       (\<lparr>Name = ''Name'', PkgPath = [], Tag = []\<rparr>, GString ''n'')]"
  have i: "Indirect (GPointer (Some (GStruct ?fs))) = GStruct ?fs"
    by simp
  have e: "extracted ?fs = ?kept"
    by code_simp
  have x: "list_all (\<lambda>fv. PkgPath (fst fv) = []) ?kept"
    by simp
  have n: "map (\<lambda>fv. getName (fst fv)) ?kept = [''id'', ''Name'']"
    by code_simp
  have "StructToKVs (GPointer (Some (GStruct ?fs))) =
      Inr (map (\<lambda>fv. getName (fst fv)) (extracted ?fs), map snd (extracted ?fs))"
    using StructToKVs_positional [OF i] x unfolding e by (rule conjunct1 [THEN mp])
  then show ?thesis
    unfolding e n by simp
qed

text \<open>
  Claim C6, as amended. The empty string is what \<open>getName\<close> answers for a field to
  skip, and \<^verbatim>\<open>StructToKVs\<close> skips on it whatever its origin. So an exported field whose
  tag resolves to the empty string (a tag value that starts with a comma) is skipped
  like an unexported one: it adds no name and no value.
\<close>

theorem empty_tag_name_skipped:
  assumes "Name t \<noteq> []" and "\<not> unicode_IsLower (Name t ! 0)" and "resolved_name t = []"
  shows "getName t = [] \<and>
         StructToKVs (GStruct (fs1 @ (t, x) # fs2)) = StructToKVs (GStruct (fs1 @ fs2))"
proof -
  have "getName t = []"
    using assms by (simp add: getName_resolved)
  then show ?thesis
    by (simp add: StructToKVs_skip)
qed

theorem empty_tag_name_skipped_witness:
  "getName \<lparr>Name = ''A'', PkgPath = [], Tag = [(''sql'', '',omitempty'')]\<rparr> = [] \<and>
   StructToKVs (GStruct
      [(\<lparr>Name = ''A'', PkgPath = [], Tag = [(''sql'', '',omitempty'')]\<rparr>, GInt 1),
       (\<lparr>Name = ''B'', PkgPath = [], Tag = []\<rparr>, GInt 2)]) = Inr ([''B''], [GInt 2])"
proof -
  have b: "StructToKVs (GStruct ([] @ [(\<lparr>Name = ''B'', PkgPath = [], Tag = []\<rparr>, GInt 2)])) = Inr ([''B''], [GInt 2])"
    by code_simp
  have n: "Name \<lparr>Name = ''A'', PkgPath = [], Tag = [(''sql'', '',omitempty'')]\<rparr> \<noteq> []"
    by simp
  have l: "\<not> unicode_IsLower (Name \<lparr>Name = ''A'', PkgPath = [], Tag = [(''sql'', '',omitempty'')]\<rparr> ! 0)"
    by (simp add: unicode_IsLower_def)
  have e: "resolved_name \<lparr>Name = ''A'', PkgPath = [], Tag = [(''sql'', '',omitempty'')]\<rparr> = []"
    by (simp add: resolved_name_def before_comma_def Get_def)
  show ?thesis
    using empty_tag_name_skipped [OF n l e, of "[]" "GInt 1" "[(\<lparr>Name = ''B'', PkgPath = [], Tag = []\<rparr>, GInt 2)]"] b
    by simp
qed

text \<open>
  Claim C6 as stated fails: a struct whose only field is exported and tagged
  \<^verbatim>\<open>sql:",omitempty"\<close> gives no name and no value, not an entry with the empty name.
\<close>

theorem empty_tag_name_counterexample:
  "resolved_name \<lparr>Name = ''A'', PkgPath = [], Tag = [(''sql'', '',omitempty'')]\<rparr> = [] \<and>
   StructToKVs (GStruct [(\<lparr>Name = ''A'', PkgPath = [], Tag = [(''sql'', '',omitempty'')]\<rparr>, GInt 1)]) =
     Inr ([], [])"
  by code_simp

text \<open>
  Claim C7 does not hold of the code. The check of \<open>getName\<close> is
  \<^verbatim>\<open>unicode.IsLower\<close> on the first byte, and an underscore is neither upper nor lower
  case. A blank field \<^verbatim>\<open>_\<close> is therefore not skipped: \<open>getName\<close> answers its name, and
  \<^verbatim>\<open>StructToKVs\<close> then asks reflection for the value of an unexported field, which
  panics. Without that field the same struct is extracted.
\<close>

theorem underscore_field_not_skipped:
  "getName \<lparr>Name = ''_'', PkgPath = ''main'', Tag = []\<rparr> = ''_'' \<and>
   StructToKVs (GStruct
       [(\<lparr>Name = ''_'', PkgPath = ''main'', Tag = []\<rparr>, GInt 0),
        (\<lparr>Name = ''A'', PkgPath = [], Tag = []\<rparr>, GInt 1)]) = Inl InterfaceOfUnexportedField \<and>
   StructToKVs (GStruct [(\<lparr>Name = ''A'', PkgPath = [], Tag = []\<rparr>, GInt 1)]) = Inr ([''A''], [GInt 1])"
  by code_simp

section \<open>The query builder\<close>

subsection \<open>The two loops of InsertInto\<close>

lemma comma_separated_Cons:
  "comma_separated (x # xs) = x @ concat (map (\<lambda>k. CHR '','' # k) xs)"
  by (induction xs arbitrary: x) auto

lemma InsertInto_keys_Syntax: "Syntax (InsertInto_keys keys i q) = Syntax q"
proof (induction keys i q rule: InsertInto_keys.induct)
  case (1 keys i q)
  show ?case
  proof (cases "i < length keys")
    case True
    then show ?thesis
      using "1.IH" [OF True refl refl]
      by (subst InsertInto_keys.simps) (simp add: Let_def WriteByte_def WriteString_def)
  next
    case False
    then show ?thesis
      by (subst InsertInto_keys.simps) simp
  qed
qed

lemma InsertInto_keys_rest:
  "0 < i \<Longrightarrow> sb (InsertInto_keys keys i q) = sb q @ concat (map (\<lambda>k. CHR '','' # k) (drop i keys))"
proof (induction keys i q rule: InsertInto_keys.induct)
  case (1 keys i q)
  show ?case
  proof (cases "i < length keys")
    case True
    then have d: "drop i keys = keys ! i # drop (Suc i) keys"
      by (simp add: Cons_nth_drop_Suc)
    show ?thesis
      using "1.IH" [OF True refl refl] "1.prems" True
      by (subst InsertInto_keys.simps) (simp add: Let_def WriteByte_def WriteString_def d)
  next
    case False
    then show ?thesis
      by (subst InsertInto_keys.simps) simp
  qed
qed

lemma InsertInto_keys_sb: "sb (InsertInto_keys keys 0 q) = sb q @ comma_separated keys"
proof (cases keys)
  case Nil
  then show ?thesis
    by (subst InsertInto_keys.simps) simp
next
  case (Cons k ks)
  have "sb (InsertInto_keys keys 0 q) = sb (InsertInto_keys keys (0 + 1) (WriteString q (keys ! 0)))"
    using Cons by (subst InsertInto_keys.simps) (simp add: Let_def)
  also have "\<dots> = sb q @ k @ concat (map (\<lambda>k. CHR '','' # k) ks)"
    using Cons by (simp add: InsertInto_keys_rest WriteString_def)
  finally show ?thesis
    using Cons by (simp add: comma_separated_Cons)
qed

lemma InsertInto_placeholders_Syntax: "Syntax (InsertInto_placeholders n i q) = Syntax q"
proof (induction n i q rule: InsertInto_placeholders.induct)
  case (1 n i q)
  show ?case
  proof (cases "i < n")
    case True
    then show ?thesis
      using "1.IH" [OF True refl refl]
      by (subst InsertInto_placeholders.simps) (simp add: Let_def WriteByte_def WriteString_def)
  next
    case False
    then show ?thesis
      by (subst InsertInto_placeholders.simps) simp
  qed
qed

lemma InsertInto_placeholders_rest:
  "0 < i \<Longrightarrow>
   sb (InsertInto_placeholders n i q) =
     sb q @ concat (map (\<lambda>j. CHR '','' # placeholder (Syntax q) j) [i..<n])"
proof (induction n i q rule: InsertInto_placeholders.induct)
  case (1 n i q)
  show ?case
  proof (cases "i < n")
    case True
    then have u: "[i..<n] = i # [Suc i..<n]"
      by (simp add: upt_conv_Cons)
    define q1 where "q1 = (if i > 0 then WriteByte q (CHR '','') else q)"
    define q2 where "q2 = (if Syntax q1 = 0 then WriteString q1 (''$'' @ Itoa (int i + 1))
                   else WriteByte q1 (CHR ''?''))"
    have syn: "Syntax q2 = Syntax q"
      by (simp add: q2_def q1_def WriteByte_def WriteString_def)
    have sb2: "sb q2 = sb q @ CHR '','' # placeholder (Syntax q) i"
      using "1.prems" by (simp add: q2_def q1_def WriteByte_def WriteString_def placeholder_def)
    have "sb (InsertInto_placeholders n i q) = sb (InsertInto_placeholders n (i + 1) q2)"
      using True by (subst InsertInto_placeholders.simps) (simp add: Let_def q1_def q2_def)
    also have "\<dots> = sb q2 @ concat (map (\<lambda>j. CHR '','' # placeholder (Syntax q2) j) [i + 1..<n])"
      using "1.IH" [OF True q1_def q2_def] by simp
    finally show ?thesis
      by (simp add: syn sb2 u)
  next
    case False
    then show ?thesis
      by (subst InsertInto_placeholders.simps) simp
  qed
qed

lemma InsertInto_placeholders_sb:
  "sb (InsertInto_placeholders n 0 q) =
     sb q @ comma_separated (map (placeholder (Syntax q)) [0..<n])"
proof (cases n)
  case 0
  then show ?thesis
    by (subst InsertInto_placeholders.simps) simp
next
  case (Suc m)
  then have u: "[0..<n] = 0 # [Suc 0..<n]"
    by (simp add: upt_conv_Cons)
  let ?q2 = "if Syntax q = 0 then WriteString q (''$'' @ Itoa (int 0 + 1)) else WriteByte q (CHR ''?'')"
  have "sb (InsertInto_placeholders n 0 q) = sb (InsertInto_placeholders n (0 + 1) ?q2)"
    using Suc by (subst InsertInto_placeholders.simps) (simp add: Let_def)
  also have "\<dots> = sb q @ placeholder (Syntax q) 0 @
      concat (map (\<lambda>j. CHR '','' # placeholder (Syntax q) j) [Suc 0..<n])"
    by (simp add: InsertInto_placeholders_rest WriteString_def WriteByte_def placeholder_def)
  finally show ?thesis
    by (simp add: u comma_separated_Cons comp_def)
qed

lemma placeholders_eq: "map (placeholder syn) [0..<n] = placeholders syn n"
proof (cases "syn = 0")
  case True
  have "map (\<lambda>i. ''$'' @ Itoa (int i + 1)) [0..<n] = map (\<lambda>k. ''$'' @ Itoa (int k)) (map Suc [0..<n])"
    by (simp add: add.commute)
  also have "map Suc [0..<n] = [1..<Suc n]"
    using map_Suc_upt [of 0 n] by simp
  finally have "map (\<lambda>i. ''$'' @ Itoa (int i + 1)) [0..<n] = map (\<lambda>k. ''$'' @ Itoa (int k)) [1..<Suc n]" .
  then show ?thesis
    using True unfolding placeholder_def placeholders_def PSQL_def by simp
next
  case False
  then have "placeholder syn = (\<lambda>i. ''?'')"
    by (simp add: placeholder_def fun_eq_iff)
  then show ?thesis
    using False by (simp add: placeholders_def PSQL_def map_replicate_const)
qed

lemma InsertInto_writes_eq:
  "InsertInto_writes q tbl keys =
     q\<lparr>sb := sb q @ insert_statement (Syntax q) tbl keys\<rparr>"
proof -
  define q4 where "q4 = WriteString (WriteString (WriteString q ''INSERT INTO '') tbl) '' (''"
  define q5 where "q5 = InsertInto_keys keys 0 q4"
  define q6 where "q6 = WriteString q5 '') VALUES (''"
  define q7 where "q7 = InsertInto_placeholders (length keys) 0 q6"
  define q8 where "q8 = WriteByte q7 (CHR '')'')"
  have s4: "sb q4 = sb q @ ''INSERT INTO '' @ tbl @ '' (''" and y4: "Syntax q4 = Syntax q"
    by (simp_all add: q4_def WriteString_def)
  have s5: "sb q5 = sb q4 @ comma_separated keys" and y5: "Syntax q5 = Syntax q"
    by (simp_all add: q5_def InsertInto_keys_sb InsertInto_keys_Syntax y4)
  have s6: "sb q6 = sb q5 @ '') VALUES (''" and y6: "Syntax q6 = Syntax q"
    by (simp_all add: q6_def WriteString_def y5)
  have s7: "sb q7 = sb q6 @ comma_separated (placeholders (Syntax q) (length keys))"
    and y7: "Syntax q7 = Syntax q"
    by (simp_all add: q7_def InsertInto_placeholders_sb InsertInto_placeholders_Syntax y6
        placeholders_eq)
  have s8: "sb q8 = sb q7 @ '')''" and y8: "Syntax q8 = Syntax q"
    by (simp_all add: q8_def WriteByte_def y7)
  have w: "InsertInto_writes q tbl keys =
      (if Syntax q8 = 0 then WriteString q8 '' RETURNING id'' else q8)"
    by (simp add: InsertInto_writes_def Let_def q4_def q5_def q6_def q7_def q8_def)
  have "sb (InsertInto_writes q tbl keys) = sb q @ insert_statement (Syntax q) tbl keys"
    by (simp add: w y8 s8 s7 s6 s5 s4 WriteString_def insert_statement_def PSQL_def)
  moreover have "Syntax (InsertInto_writes q tbl keys) = Syntax q"
    by (simp add: w y8 WriteString_def)
  ultimately show ?thesis
    by (intro Query.equality) simp_all
qed

lemma deref_NewQuery:
  "deref (fst (NewQuery h syn)) (snd (NewQuery h syn)) = Inr \<lparr>sb = [], Syntax = syn\<rparr>"
  by (simp add: NewQuery_def deref_def)

lemma deref_store_same:
  "deref h p = Inr qv \<Longrightarrow> deref (store h p qv') p = Inr qv'"
  by (auto simp: deref_def store_def split: QueryPtr.splits if_splits)

lemma deref_store_other:
  "p \<noteq> p' \<Longrightarrow> deref (store h p qv') p' = deref h p'"
  by (cases p; cases p') (simp_all add: deref_def store_def)

lemma InsertInto_appends:
  assumes "keys \<noteq> []" and "deref h q = Inr qv"
  shows "InsertInto h q tbl keys = Inr (store h q (qv\<lparr>sb := sb qv @ insert_statement (Syntax qv) tbl keys\<rparr>), q)"
  using assms by (simp add: InsertInto_def InsertInto_writes_eq)

lemma decimal_digit: "n < 10 \<Longrightarrow> decimal n = [digit n]"
  by (subst decimal.simps) simp

text \<open>
  Claim C2. On a fresh builder and with at least one key, \<^verbatim>\<open>InsertInto\<close> returns its
  receiver, whose text is then exactly the statement: \<^verbatim>\<open>INSERT INTO\<close>, the table, the
  keys between parentheses and separated by commas, \<^verbatim>\<open>VALUES\<close>, and as many
  placeholders. For \<open>PSQL\<close> the placeholders are \<^verbatim>\<open>$1\<close> to \<^verbatim>\<open>$N\<close> and \<^verbatim>\<open> RETURNING id\<close>
  follows; for \<open>MySQL\<close>, and any other value of \<open>Syntax\<close>, each placeholder is \<^verbatim>\<open>?\<close> and
  nothing follows.
\<close>

theorem InsertInto_statement:
  assumes "keys \<noteq> []" and "NewQuery h syn = (h1, q)"
  shows "\<exists>h2. InsertInto h1 q tbl keys = Inr (h2, q) \<and>
           String h2 q = Inr (insert_statement syn tbl keys)"
proof -
  have d: "deref h1 q = Inr \<lparr>sb = [], Syntax = syn\<rparr>"
    using deref_NewQuery [of h syn] assms(2) by simp
  let ?h2 = "store h1 q (\<lparr>sb = [], Syntax = syn\<rparr>\<lparr>sb := sb \<lparr>sb = [], Syntax = syn\<rparr> @ insert_statement (Syntax \<lparr>sb = [], Syntax = syn\<rparr>) tbl keys\<rparr>)"
  have "InsertInto h1 q tbl keys = Inr (?h2, q)"
    using InsertInto_appends [OF assms(1) d] by simp
  moreover have "String ?h2 q = Inr (insert_statement syn tbl keys)"
    using deref_store_same [OF d] by (simp add: String_def)
  ultimately show ?thesis
    by blast
qed

theorem InsertInto_statement_witness:
  "(\<exists>h2. InsertInto (fst (NewQuery [] PSQL)) (snd (NewQuery [] PSQL)) ''t'' [''a'', ''b''] = Inr (h2, snd (NewQuery [] PSQL)) \<and>
      String h2 (snd (NewQuery [] PSQL)) = Inr ''INSERT INTO t (a,b) VALUES ($1,$2) RETURNING id'') \<and>
   (\<exists>h2. InsertInto (fst (NewQuery [] MySQL)) (snd (NewQuery [] MySQL)) ''t'' [''a'', ''b''] = Inr (h2, snd (NewQuery [] MySQL)) \<and>
      String h2 (snd (NewQuery [] MySQL)) = Inr ''INSERT INTO t (a,b) VALUES (?,?)'')"
proof -
  have p: "insert_statement PSQL ''t'' [''a'', ''b''] = ''INSERT INTO t (a,b) VALUES ($1,$2) RETURNING id''"
    by (simp add: insert_statement_def placeholders_def Itoa_def decimal_digit digit_def PSQL_def)
  have m: "insert_statement MySQL ''t'' [''a'', ''b''] = ''INSERT INTO t (a,b) VALUES (?,?)''"
    by (simp add: insert_statement_def placeholders_def PSQL_def MySQL_def numeral_2_eq_2)
  show ?thesis
    using InsertInto_statement [of "[''a'', ''b'']" "[]" PSQL "fst (NewQuery [] PSQL)" "snd (NewQuery [] PSQL)" "''t''"]
      InsertInto_statement [of "[''a'', ''b'']" "[]" MySQL "fst (NewQuery [] MySQL)" "snd (NewQuery [] MySQL)" "''t''"]
    by (simp add: p m)
qed

text \<open>
  Claim C8. With no keys \<^verbatim>\<open>InsertInto\<close> panics, whatever the table, the builder and its
  \<open>Syntax\<close>: no heap and no builder comes back, and nothing was written.
\<close>

theorem InsertInto_no_keys: "InsertInto h q tbl [] = Inl NeedAtLeastOneKey"
  by (simp add: InsertInto_def)

subsection \<open>Copy\<close>

text \<open>
  Claim C9. \<^verbatim>\<open>Copy\<close> of a builder returns a pointer to a new builder, one that was not
  on the heap before, with the same \<open>Syntax\<close> and the same text; the source is as it
  was. From then on a write through either pointer leaves the builder behind the other
  as it is, and so does an \<^verbatim>\<open>InsertInto\<close> on either of them.
\<close>

theorem Copy_independent:
  assumes "deref h q = Inr qv"
  shows "\<exists>h1 nq. Copy h q = Inr (h1, nq) \<and>
           nq \<noteq> q \<and> deref h nq = Inl NilPointerDereference \<and>
           deref h1 nq = Inr \<lparr>sb = sb qv, Syntax = Syntax qv\<rparr> \<and>
           deref h1 q = Inr qv \<and>
           (\<forall>x. deref (store h1 nq x) q = Inr qv) \<and>
           (\<forall>x. deref (store h1 q x) nq = Inr \<lparr>sb = sb qv, Syntax = Syntax qv\<rparr>) \<and>
           (\<forall>tbl keys h2 r. InsertInto h1 nq tbl keys = Inr (h2, r) \<longrightarrow> String h2 q = Inr (sb qv)) \<and>
           (\<forall>tbl keys h2 r. InsertInto h1 q tbl keys = Inr (h2, r) \<longrightarrow> String h2 nq = Inr (sb qv))"
proof -
  obtain a where q: "q = QueryAt a" and a: "a < length h" and qv: "h ! a = qv"
    using assms by (auto simp: deref_def split: QueryPtr.splits if_splits)
  define nq where "nq = QueryAt (length h)"
  define h0 where "h0 = h @ [\<lparr>sb = [], Syntax = Syntax qv\<rparr>]"
  define h1 where "h1 = store h0 nq (WriteString \<lparr>sb = [], Syntax = Syntax qv\<rparr> (sb qv))"
  have new: "NewQuery h (Syntax qv) = (h0, nq)"
    by (simp add: NewQuery_def h0_def nq_def)
  have d0q: "deref h0 q = Inr qv"
    using a qv by (simp add: deref_def q h0_def nth_append)
  have d0n: "deref h0 nq = Inr \<lparr>sb = [], Syntax = Syntax qv\<rparr>"
    by (simp add: deref_def nq_def h0_def)
  have c: "Copy h q = Inr (h1, nq)"
    using assms by (simp add: Copy_def new String_def d0q d0n h1_def)
  have ne: "nq \<noteq> q"
    using a by (simp add: nq_def q)
  have fresh: "deref h nq = Inl NilPointerDereference"
    by (simp add: deref_def nq_def)
  have d1n: "deref h1 nq = Inr \<lparr>sb = sb qv, Syntax = Syntax qv\<rparr>"
    unfolding h1_def using deref_store_same [OF d0n] by (simp add: WriteString_def)
  have d1q: "deref h1 q = Inr qv"
    unfolding h1_def using deref_store_other [OF ne] d0q by simp
  have f1: "deref (store h1 nq x) q = Inr qv" for x
    using deref_store_other [OF ne] d1q by simp
  have f2: "deref (store h1 q x) nq = Inr \<lparr>sb = sb qv, Syntax = Syntax qv\<rparr>" for x
    using deref_store_other [OF ne [symmetric]] d1n by simp
  have i1: "String h2 q = Inr (sb qv)" if "InsertInto h1 nq tbl keys = Inr (h2, r)" for tbl keys h2 r
    using that d1n f1 by (auto simp: InsertInto_def String_def split: if_splits)
  have i2: "String h2 nq = Inr (sb qv)" if "InsertInto h1 q tbl keys = Inr (h2, r)" for tbl keys h2 r
    using that d1q f2 by (auto simp: InsertInto_def String_def split: if_splits)
  show ?thesis
    using c ne fresh d1n d1q f1 f2 i1 i2 by blast
qed


theorem Copy_independent_witness:
  "\<exists>h1 nq h2.
     Copy [\<lparr>sb = ''INSERT INTO t '', Syntax = MySQL\<rparr>] (QueryAt 0) = Inr (h1, nq) \<and>
     nq \<noteq> QueryAt 0 \<and>
     String h1 nq = Inr ''INSERT INTO t '' \<and>
     InsertInto h1 nq ''u'' [''a''] = Inr (h2, nq) \<and>
     String h2 nq = Inr ''INSERT INTO t INSERT INTO u (a) VALUES (?)'' \<and>
     String h2 (QueryAt 0) = Inr ''INSERT INTO t ''"
proof -
  let ?q0 = "\<lparr>sb = ''INSERT INTO t '', Syntax = MySQL\<rparr>"
  have d: "deref [?q0] (QueryAt 0) = Inr ?q0"
    by (simp add: deref_def)
  obtain h1 nq where c: "Copy [?q0] (QueryAt 0) = Inr (h1, nq)" and ne: "nq \<noteq> QueryAt 0"
    and keep: "\<forall>tbl keys h2 r. InsertInto h1 nq tbl keys = Inr (h2, r) \<longrightarrow> String h2 (QueryAt 0) = Inr (sb ?q0)"
    using Copy_independent [OF d] by blast
  have "Copy [?q0] (QueryAt 0) = Inr ([?q0, ?q0], QueryAt 1)"
    by code_simp
  then have h1: "h1 = [?q0, ?q0]" and nq: "nq = QueryAt 1"
    using c by simp_all
  have s1: "String h1 nq = Inr ''INSERT INTO t ''"
    unfolding h1 nq by code_simp
  have i: "InsertInto h1 nq ''u'' [''a''] =
      Inr ([?q0, \<lparr>sb = ''INSERT INTO t INSERT INTO u (a) VALUES (?)'', Syntax = MySQL\<rparr>], nq)"
    unfolding h1 nq by code_simp
  have s2: "String [?q0, \<lparr>sb = ''INSERT INTO t INSERT INTO u (a) VALUES (?)'', Syntax = MySQL\<rparr>] nq =
      Inr ''INSERT INTO t INSERT INTO u (a) VALUES (?)''"
    unfolding nq by code_simp
  have s3: "String [?q0, \<lparr>sb = ''INSERT INTO t INSERT INTO u (a) VALUES (?)'', Syntax = MySQL\<rparr>] (QueryAt 0) =
      Inr ''INSERT INTO t ''"
    using keep i by (simp del: all_simps)
  show ?thesis
    using c ne s1 i s2 s3 by blast
qed

section \<open>ExecInsert\<close>

text \<open>
  Claim C5. With a builder behind \<open>q\<close>: for a \<^verbatim>\<open>*sql.DB\<close> and for a \<^verbatim>\<open>*sql.Tx\<close> the
  builder's text and the values, in order, go to \<^verbatim>\<open>QueryRowContext\<close>, the one string
  that \<^verbatim>\<open>Scan\<close> stores is the identifier returned, and the error of the call is the
  error returned. For a \<^verbatim>\<open>*sql.Stmt\<close> the values go to \<^verbatim>\<open>ExecContext\<close>, nothing is
  scanned, the identifier is empty and the error of the call is returned. Any other
  target panics.
\<close>

theorem ExecInsert_targets:
  assumes "deref h q = Inr qv"
  shows "ExecInsert h q (DB t) ctx values =
           Inr (case fst (t ctx (sb qv) values) of None \<Rightarrow> [] | Some s \<Rightarrow> s, snd (t ctx (sb qv) values)) \<and>
         ExecInsert h q (Tx t) ctx values =
           Inr (case fst (t ctx (sb qv) values) of None \<Rightarrow> [] | Some s \<Rightarrow> s, snd (t ctx (sb qv) values)) \<and>
         ExecInsert h q (Stmt st) ctx values = Inr ([], st ctx values) \<and>
         ExecInsert h q (OtherTarget x) ctx values = Inl InvalidType"
  using assms by (simp add: ExecInsert_def String_def Scan_def split: option.splits)

theorem ExecInsert_targets_witness:
  "ExecInsert [\<lparr>sb = ''INSERT INTO t (a) VALUES ($1) RETURNING id'', Syntax = PSQL\<rparr>] (QueryAt 0)
      (DB (\<lambda>ctx s vs. if s = ''INSERT INTO t (a) VALUES ($1) RETURNING id'' \<and> vs = [GInt 5]
                        then (Some ''42'', None) else (None, Some (Err ''syntax error''))))
      (Context 0) [GInt 5] = Inr (''42'', None) \<and>
   ExecInsert [\<lparr>sb = ''INSERT INTO t (a) VALUES ($1) RETURNING id'', Syntax = PSQL\<rparr>] (QueryAt 0)
      (Tx (\<lambda>ctx s vs. (None, Some (Err ''no rows''))))
      (Context 0) [GInt 5] = Inr ([], Some (Err ''no rows'')) \<and>
   ExecInsert [\<lparr>sb = ''INSERT INTO t (a) VALUES ($1) RETURNING id'', Syntax = PSQL\<rparr>] (QueryAt 0)
      (Stmt (\<lambda>ctx vs. Some (Err ''closed''))) (Context 0) [GInt 5] = Inr ([], Some (Err ''closed'')) \<and>
   ExecInsert [\<lparr>sb = ''INSERT INTO t (a) VALUES ($1) RETURNING id'', Syntax = PSQL\<rparr>] (QueryAt 0)
      (OtherTarget (GInt 3)) (Context 0) [GInt 5] = Inl InvalidType"
proof -
  have d: "deref [\<lparr>sb = ''INSERT INTO t (a) VALUES ($1) RETURNING id'', Syntax = PSQL\<rparr>] (QueryAt 0) =
      Inr \<lparr>sb = ''INSERT INTO t (a) VALUES ($1) RETURNING id'', Syntax = PSQL\<rparr>"
    by (simp add: deref_def)
  show ?thesis
    using
      ExecInsert_targets [OF d, of "\<lambda>ctx s vs. if s = ''INSERT INTO t (a) VALUES ($1) RETURNING id'' \<and> vs = [GInt 5]
                        then (Some ''42'', None) else (None, Some (Err ''syntax error''))" "Context 0" "[GInt 5]"
          "\<lambda>ctx vs. Some (Err ''closed'')" "GInt 3"]
      ExecInsert_targets [OF d, of "\<lambda>ctx s vs. (None, Some (Err ''no rows''))" "Context 0" "[GInt 5]"
          "\<lambda>ctx vs. Some (Err ''closed'')" "GInt 3"]
    by simp
qed

text \<open>
  Claim C10. For a \<^verbatim>\<open>*sql.Stmt\<close> the builder is not read: the identifier is empty, the
  error is that of \<^verbatim>\<open>ExecContext\<close> on the context and the values, and the result is the
  same for any two heaps and any two builder pointers, a \<^verbatim>\<open>nil\<close> one included.
\<close>

theorem ExecInsert_Stmt_ignores_builder:
  "ExecInsert h q (Stmt st) ctx values = Inr ([], st ctx values) \<and>
   ExecInsert h q (Stmt st) ctx values = ExecInsert h' q' (Stmt st) ctx values"
  by (simp add: ExecInsert_def)

section \<open>WrapCopyIn\<close>

text \<open>
  When the callback returns, the calls are as follows. With \<^verbatim>\<open>Begin\<close> done, \<^verbatim>\<open>Commit\<close>
  is called exactly when preparing, the callback and \<^verbatim>\<open>Exec\<close> all returned without an
  error, and its result is then returned; else \<^verbatim>\<open>Rollback\<close> is called, once, and the
  error of the first failing step is returned. \<^verbatim>\<open>Close\<close> is called once if the
  statement was prepared.
\<close>

lemma WrapCopyIn_returning_callback:
  assumes "db_Begin w = None" and "fn w = FnReturns r"
  shows "\<exists>calls e. WrapCopyIn w ctx table columns = (calls, Returns e) \<and>
           (CallCommit \<in> set calls \<longleftrightarrow> steps_succeed w) \<and>
           (CallRollback \<in> set calls \<longleftrightarrow> \<not> steps_succeed w) \<and>
           count_list calls CallRollback + count_list calls CallCommit = 1 \<and>
           (\<not> steps_succeed w \<longrightarrow> e = first_error w \<and> e \<noteq> None) \<and>
           (steps_succeed w \<longrightarrow> e = tx_Commit w) \<and>
           count_list calls CallClose = (if tx_PrepareContext w = None then 1 else 0)"
  using assms
  by (cases "tx_PrepareContext w"; cases r; cases "st_Exec w")
    (auto simp: WrapCopyIn_def deferred_def steps_succeed_def first_error_def)

lemma WrapCopyIn_all_succeed:
  assumes "db_Begin w = None" and "steps_succeed w"
  shows "WrapCopyIn w ctx table columns =
     ([CallBegin, CallPrepareContext ctx table columns, CallFn, CallExec, CallClose, CallCommit],
      Returns (tx_Commit w))"
  using assms by (simp add: WrapCopyIn_def deferred_def steps_succeed_def)

lemma WrapCopyIn_step_fails:
  assumes "db_Begin w = None" and "fn w = FnReturns r" and "\<not> steps_succeed w"
  shows "WrapCopyIn w ctx table columns =
     (CallBegin # CallPrepareContext ctx table columns #
        (if tx_PrepareContext w \<noteq> None then [CallRollback]
         else if r \<noteq> None then [CallFn, CallClose, CallRollback]
         else [CallFn, CallExec, CallClose, CallRollback]),
      Returns (first_error w))"
  using assms
  by (cases "tx_PrepareContext w"; cases r; cases "st_Exec w")
    (auto simp: WrapCopyIn_def deferred_def steps_succeed_def first_error_def)

text \<open>A callback that panics: the deferred function closes the statement and commits.\<close>

lemma WrapCopyIn_panic_in_callback:
  assumes "db_Begin w = None" and "tx_PrepareContext w = None" and "fn w = FnPanics"
  shows "WrapCopyIn w ctx table columns =
     ([CallBegin, CallPrepareContext ctx table columns, CallFn, CallClose, CallCommit], Panics)"
  using assms by (simp add: WrapCopyIn_def deferred_def)

text \<open>
  Claim C4 does not hold of the code when the callback panics. The deferred function
  decides between \<^verbatim>\<open>Rollback\<close> and \<^verbatim>\<open>Commit\<close> by \<^verbatim>\<open>err\<close> alone; a panic in the callback
  leaves \<^verbatim>\<open>err\<close> at the \<^verbatim>\<open>nil\<close> of the successful \<^verbatim>\<open>PrepareContext\<close>, so the transaction
  is committed although the callback did not succeed and \<^verbatim>\<open>Exec\<close> was never called,
  and no rollback is tried.
\<close>

theorem WrapCopyIn_commits_on_panic:
  "WrapCopyIn \<lparr>db_Begin = None, tx_PrepareContext = None, fn = FnPanics, st_Exec = None,
                st_Close = None, tx_Rollback = None, tx_Commit = None\<rparr> (Context 0) ''t'' [''a''] =
     ([CallBegin, CallPrepareContext (Context 0) ''t'' [''a''], CallFn, CallClose, CallCommit], Panics)"
  by (simp add: WrapCopyIn_def deferred_def)

end
